theory Spec2Isabelle
  imports Complex_Main "HOL-Library.Sublist"
begin

section \<open>Strings as the program uses them\<close>

text \<open>
  A JavaScript string is modelled as a \<^typ>\<open>string\<close>, one \<^typ>\<open>char\<close> per code unit;
  the helpers below are the ASCII part of the string methods the program calls.
\<close>

definition is_space :: "char \<Rightarrow> bool" where
  \<comment> \<open>the ASCII characters matched by \<open>\s\<close> and removed by \<open>trim()\<close>\<close>
  "is_space c = (c = CHR '' '' \<or> c = CHR 0x09 \<or> c = CHR 0x0A \<or> c = CHR 0x0B
                 \<or> c = CHR 0x0C \<or> c = CHR 0x0D)"

definition trim :: "string \<Rightarrow> string" where
  "trim s = rev (dropWhile is_space (rev (dropWhile is_space s)))"

definition lower_char :: "char \<Rightarrow> char" where
  "lower_char c =
     (let n = (of_char c :: nat) in if 65 \<le> n \<and> n \<le> 90 then char_of (n + 32) else c)"

definition toLowerCase :: "string \<Rightarrow> string" where
  "toLowerCase s = map lower_char s"

fun str_includes :: "string \<Rightarrow> string \<Rightarrow> bool" where
  \<comment> \<open>\<open>s.includes(sub)\<close>\<close>
  "str_includes [] sub = (sub = [])"
| "str_includes (c # cs) sub = (prefix sub (c # cs) \<or> str_includes cs sub)"

fun split_on :: "(char \<Rightarrow> bool) \<Rightarrow> string \<Rightarrow> string list" where
  \<comment> \<open>\<open>s.split(/[...]/)\<close> for a one-character class: n separators give n + 1 pieces\<close>
  "split_on sep [] = [[]]"
| "split_on sep (c # cs) =
     (if sep c then [] # split_on sep cs
      else (case split_on sep cs of [] \<Rightarrow> [[c]] | w # ws \<Rightarrow> (c # w) # ws))"

definition str_length :: "string \<Rightarrow> int" where
  \<comment> \<open>\<open>s.length\<close>\<close>
  "str_length s = int (length s)"

definition substring0 :: "string \<Rightarrow> int \<Rightarrow> string" where
  \<comment> \<open>\<open>s.substring(0, n)\<close>\<close>
  "substring0 s n = take (nat n) s"

section \<open>Fact tracking in \<open>synthesizeFindings\<close>\<close>

text \<open>
  \<open>mentionedFacts\<close> is a JavaScript \<open>Set\<close> of strings. A \<open>Set\<close> keeps insertion order
  (the prompts read \<open>Array.from(mentionedFacts).slice(0, 25)\<close>), so it is modelled as the
  list of its elements in insertion order.
\<close>

definition Set_add :: "'a \<Rightarrow> 'a list \<Rightarrow> 'a list" where
  "Set_add x xs = (if x \<in> set xs then xs else xs @ [x])"

definition addFact :: "string list \<Rightarrow> string \<Rightarrow> string list" where
  \<comment> \<open>the body of the \<open>forEach\<close> callback\<close>
  "addFact mentionedFacts rawFact =
     (let cleanFact = toLowerCase (trim rawFact)
      in if length cleanFact > 3 then Set_add cleanFact mentionedFacts else mentionedFacts)"

definition is_fact_separator :: "char \<Rightarrow> bool" where
  "is_fact_separator c = (c = CHR ''|'' \<or> c = CHR '','')"

definition mergeFacts :: "string \<Rightarrow> string list \<Rightarrow> string list" where
  \<comment> \<open>"Add extracted facts to the tracking set"\<close>
  "mergeFacts extractedFacts mentionedFacts =
     (if trim extractedFacts \<noteq> []
      then foldl addFact mentionedFacts (split_on is_fact_separator extractedFacts)
      else mentionedFacts)"

definition cleanFacts :: "string \<Rightarrow> string list" where
  \<comment> \<open>the strings a merge of \<open>extractedFacts\<close> can insert\<close>
  "cleanFacts extractedFacts =
     filter (\<lambda>f. length f > 3)
       (map (\<lambda>rawFact. toLowerCase (trim rawFact)) (split_on is_fact_separator extractedFacts))"

section \<open>The inference client: \<open>CerebrasAPIService\<close>\<close>

text \<open>
  The world outside the service is an oracle: \<open>clock\<close> gives the value of the k-th reading
  of \<open>Date.now()\<close> and \<open>respond\<close> the outcome of the k-th \<open>fetch\<close> of the chat endpoint.
  The service counts its readings (\<open>ticks\<close>) and logs its requests (\<open>requests\<close>). A timer
  the code awaits changes nothing but later clock readings, which the oracle leaves free.
\<close>

datatype error = Error string

datatype body =
    Unreadable                \<comment> \<open>\<open>response.text()\<close> or \<open>response.json()\<close> throws\<close>
  | NoChoices                 \<comment> \<open>the parsed data has no \<open>choices\<close> array\<close>
  | Content "string option"   \<comment> \<open>\<open>data.choices[0]?.message?.content\<close>\<close>

datatype response =
    FetchFailed               \<comment> \<open>\<open>fetch\<close> rejects\<close>
  | Response int body         \<comment> \<open>HTTP status and body\<close>

record env =
  clock :: "nat \<Rightarrow> int"
  respond :: "nat \<Rightarrow> response"

datatype message = System string | User string

record cerebras =
  apiKey :: string
  modelRequestCounts :: "string \<rightharpoonup> nat"
  modelRequestWindows :: "string \<rightharpoonup> int"
  modelHealth :: "string \<rightharpoonup> bool"
  modelFailureCount :: "string \<rightharpoonup> nat"
  modelLastFailure :: "string \<rightharpoonup> int"
  currentModelIndex :: nat
  lastCycleTime :: int
  healthyModels :: "string list"
  lastHealthCheck :: int
  ticks :: nat
  requests :: "(string \<times> message list) list"

definition availableModels :: "string list" where
  "availableModels =
     [''llama-3.3-70b'', ''llama-3.1-8b'', ''llama-4-scout-17b-16e-instruct'', ''qwen-3-32b'']"

definition or0 :: "('k \<rightharpoonup> 'v::zero) \<Rightarrow> 'k \<Rightarrow> 'v" where
  \<comment> \<open>\<open>obj[key] || 0\<close>\<close>
  "or0 m k = (case m k of None \<Rightarrow> 0 | Some v \<Rightarrow> v)"

definition truthy :: "('k \<rightharpoonup> bool) \<Rightarrow> 'k \<Rightarrow> bool" where
  \<comment> \<open>\<open>obj[key]\<close> in a condition: a missing key is falsy\<close>
  "truthy m k = (m k = Some True)"

definition Date_now :: "env \<Rightarrow> cerebras \<Rightarrow> int" where
  "Date_now e s = clock e (ticks s)"

definition tick :: "cerebras \<Rightarrow> cerebras" where
  "tick s = s\<lparr>ticks := Suc (ticks s)\<rparr>"

definition new_service :: cerebras where
  \<comment> \<open>the field initialisers of the class; the fields of the unused \<open>waitForRateLimit\<close> and
      \<open>chatWithModelSwitching\<close> are left out\<close>
  "new_service = \<lparr>apiKey = [], modelRequestCounts = Map.empty, modelRequestWindows = Map.empty,
     modelHealth = Map.empty, modelFailureCount = Map.empty, modelLastFailure = Map.empty,
     currentModelIndex = 0, lastCycleTime = 0, healthyModels = availableModels,
     lastHealthCheck = 0, ticks = 0, requests = []\<rparr>"

definition init_model :: "cerebras \<Rightarrow> string \<Rightarrow> cerebras" where
  "init_model s model =
     s\<lparr>modelHealth := (modelHealth s)(model \<mapsto> True),
       modelFailureCount := (modelFailureCount s)(model \<mapsto> 0),
       modelLastFailure := (modelLastFailure s)(model \<mapsto> 0)\<rparr>"

definition setApiKey :: "string \<Rightarrow> cerebras \<Rightarrow> cerebras" where
  "setApiKey key s = foldl init_model (s\<lparr>apiKey := key\<rparr>) availableModels"

definition canUseModel :: "env \<Rightarrow> string \<Rightarrow> cerebras \<Rightarrow> bool \<times> cerebras" where
  "canUseModel e model s =
     (let now = Date_now e s;
          s1 = tick s;
          s2 = (if or0 (modelRequestCounts s1) model = 0
                then s1\<lparr>modelRequestCounts := (modelRequestCounts s1)(model \<mapsto> 0),
                        modelRequestWindows := (modelRequestWindows s1)(model \<mapsto> now)\<rparr>
                else s1);
          s3 = (case modelRequestWindows s2 model of
                  None \<Rightarrow> s2
                | Some w \<Rightarrow>
                    if now - w > 60000
                    then s2\<lparr>modelRequestCounts := (modelRequestCounts s2)(model \<mapsto> 0),
                            modelRequestWindows := (modelRequestWindows s2)(model \<mapsto> now)\<rparr>
                    else s2)
      in (or0 (modelRequestCounts s3) model < 15, s3))"

definition registerModelUsage :: "env \<Rightarrow> string \<Rightarrow> cerebras \<Rightarrow> cerebras" where
  "registerModelUsage e model s =
     (let s1 = (if or0 (modelRequestCounts s) model = 0
                then (tick s)\<lparr>modelRequestCounts := (modelRequestCounts s)(model \<mapsto> 0),
                              modelRequestWindows := (modelRequestWindows s)(model \<mapsto> Date_now e s)\<rparr>
                else s)
      in s1\<lparr>modelRequestCounts :=
              (modelRequestCounts s1)(model \<mapsto> or0 (modelRequestCounts s1) model + 1)\<rparr>)"

definition cooldownTime :: int where
  "cooldownTime = 120000"

definition healthCheck :: "env \<Rightarrow> int \<Rightarrow> string \<Rightarrow> cerebras \<Rightarrow> bool \<times> cerebras" where
  \<comment> \<open>the callback of \<open>availableModels.filter\<close> in \<open>updateHealthyModels\<close>\<close>
  "healthCheck e now model s =
     (let failures = or0 (modelFailureCount s) model;
          lastFailure = or0 (modelLastFailure s) model
      in if failures \<ge> 3 \<and> now - lastFailure < cooldownTime
         then (False, if truthy (modelHealth s) model
                      then s\<lparr>modelHealth := (modelHealth s)(model \<mapsto> False)\<rparr> else s)
         else
           let s1 = (if failures \<ge> 3 \<and> now - lastFailure \<ge> cooldownTime
                     then s\<lparr>modelFailureCount := (modelFailureCount s)(model \<mapsto> 0),
                            modelHealth := (modelHealth s)(model \<mapsto> True)\<rparr>
                     else s);
               (canUse, s2) = canUseModel e model s1
           in if \<not> canUse \<and> truthy (modelHealth s2) model then (False, s2)
              else (truthy (modelHealth s2) model, s2))"

fun filterModels :: "env \<Rightarrow> int \<Rightarrow> string list \<Rightarrow> cerebras \<Rightarrow> string list \<times> cerebras" where
  "filterModels e now [] s = ([], s)"
| "filterModels e now (model # models) s =
     (let (keep, s1) = healthCheck e now model s;
          (kept, s2) = filterModels e now models s1
      in (if keep then model # kept else kept, s2))"

definition reset_model :: "cerebras \<Rightarrow> string \<Rightarrow> cerebras" where
  "reset_model s model =
     s\<lparr>modelHealth := (modelHealth s)(model \<mapsto> True),
       modelFailureCount := (modelFailureCount s)(model \<mapsto> 0)\<rparr>"

definition updateHealthyModels :: "env \<Rightarrow> cerebras \<Rightarrow> cerebras" where
  "updateHealthyModels e s =
     (let now = Date_now e s; s1 = tick s
      in if now - lastHealthCheck s1 < 10000 then s1
         else
           let (kept, s2) = filterModels e now availableModels (s1\<lparr>lastHealthCheck := now\<rparr>)
           in if length kept = 0
              then (foldl reset_model s2 availableModels)\<lparr>healthyModels := availableModels\<rparr>
              else s2\<lparr>healthyModels := kept\<rparr>)"

definition recordModelFailure :: "env \<Rightarrow> string \<Rightarrow> cerebras \<Rightarrow> cerebras" where
  "recordModelFailure e model s =
     (let failures = or0 (modelFailureCount s) model + 1;
          s1 = (tick s)\<lparr>modelFailureCount := (modelFailureCount s)(model \<mapsto> failures),
                        modelLastFailure := (modelLastFailure s)(model \<mapsto> Date_now e s)\<rparr>
      in if failures \<ge> 3 then s1\<lparr>modelHealth := (modelHealth s1)(model \<mapsto> False)\<rparr> else s1)"

definition recordSuccess :: "string \<Rightarrow> cerebras \<Rightarrow> cerebras" where
  \<comment> \<open>"Reset failure count on success"\<close>
  "recordSuccess model s =
     (if or0 (modelFailureCount s) model > 0
      then s\<lparr>modelFailureCount := (modelFailureCount s)(model \<mapsto> 0)\<rparr> else s)"

definition getNextModelInCycle :: "env \<Rightarrow> cerebras \<Rightarrow> string \<times> cerebras" where
  "getNextModelInCycle e s =
     (let s1 = updateHealthyModels e s
      in if length (healthyModels s1) = 0 then (hd availableModels, s1)
         else (healthyModels s1 ! (currentModelIndex s1 mod length (healthyModels s1)),
               s1\<lparr>currentModelIndex := currentModelIndex s1 + 1\<rparr>))"

definition waitForCycleTime :: "env \<Rightarrow> cerebras \<Rightarrow> cerebras" where
  \<comment> \<open>reads the clock, may await a timer, then stores a second reading\<close>
  "waitForCycleTime e s = (let s1 = tick s in (tick s1)\<lparr>lastCycleTime := Date_now e s1\<rparr>)"

definition printModelStatus :: "env \<Rightarrow> cerebras \<Rightarrow> cerebras" where
  \<comment> \<open>logging only, but \<open>canUseModel\<close> updates the request windows\<close>
  "printModelStatus e s = foldl (\<lambda>s model. snd (canUseModel e model s)) (tick s) availableModels"

subsection \<open>Prompt preparation\<close>

definition no_think :: string where
  "no_think = ''/no_think'' @ [CHR 0x0A, CHR 0x0A]"

definition preparePromptWithNoThink :: "string \<Rightarrow> string \<Rightarrow> string" where
  "preparePromptWithNoThink prompt model =
     (if model = ''qwen-3-32b'' then no_think @ prompt else prompt)"

definition over_budget :: "string \<Rightarrow> string option \<Rightarrow> bool" where
  \<comment> \<open>\<open>(prompt.length + (systemPrompt?.length || 0)) / 3.5 > 7000\<close>, in tenths\<close>
  "over_budget prompt systemPrompt =
     (10 * (str_length prompt + (case systemPrompt of None \<Rightarrow> 0 | Some sp \<Rightarrow> str_length sp))
        > 35 * 7000)"

definition maxPromptChars :: int where
  \<comment> \<open>\<open>Math.floor(7000 * 3.5 * 0.8)\<close>\<close>
  "maxPromptChars = 19600"

definition maxSystemChars :: int where
  \<comment> \<open>\<open>Math.floor(7000 * 3.5 * 0.2)\<close>\<close>
  "maxSystemChars = 4900"

definition adjustPrompts :: "string \<Rightarrow> string \<Rightarrow> string option \<Rightarrow> string option \<times> string" where
  \<comment> \<open>"Estimate token count and truncate if needed": the adjusted system and user prompts\<close>
  "adjustPrompts model prompt systemPrompt =
     (let adjustedPrompt = preparePromptWithNoThink prompt model
      in if over_budget prompt systemPrompt
         then
           let adjustedSystemPrompt =
                 (case systemPrompt of
                    None \<Rightarrow> None
                  | Some sp \<Rightarrow>
                      if sp \<noteq> [] \<and> str_length sp > maxSystemChars
                      then Some (substring0 sp maxSystemChars @ ''...'') else Some sp);
               basePrompt = (if model = ''qwen-3-32b'' then prompt else adjustedPrompt)
           in if str_length basePrompt > maxPromptChars
              then
                let truncatedBase = substring0 basePrompt maxPromptChars @ ''...''
                in (adjustedSystemPrompt,
                    if model = ''qwen-3-32b'' then no_think @ truncatedBase else truncatedBase)
              else (adjustedSystemPrompt, adjustedPrompt)
         else (systemPrompt, adjustedPrompt))"

definition adjustedMessages :: "string option \<times> string \<Rightarrow> message list" where
  "adjustedMessages p =
     (case p of
        (Some sp, up) \<Rightarrow> if sp \<noteq> [] then [System sp, User up] else [User up]
      | (None, up) \<Rightarrow> [User up])"

subsection \<open>Reasoning markup\<close>

fun find_close :: "string \<Rightarrow> string option" where
  \<comment> \<open>the text after the first closing tag\<close>
  "find_close [] = None"
| "find_close (c # cs) =
     (if prefix ''</think>'' (c # cs) then Some (drop 8 (c # cs)) else find_close cs)"

lemma find_close_length: "find_close xs = Some r \<Longrightarrow> length r \<le> length xs"
  by (induction xs) (auto split: if_splits)

function strip_think :: "string \<Rightarrow> string" where
  \<comment> \<open>\<open>content.replace(/<think>[\s\S]*?<\/think>\s*/g, '')\<close>\<close>
  "strip_think [] = []"
| "strip_think (c # cs) =
     (if prefix ''<think>'' (c # cs)
      then (case find_close (drop 7 (c # cs)) of
              Some rest \<Rightarrow> strip_think (dropWhile is_space rest)
            | None \<Rightarrow> c # strip_think cs)
      else c # strip_think cs)"
  by pat_completeness auto
termination
proof (relation "measure length")
  fix c cs rest
  assume "find_close (drop 7 (c # cs)) = Some rest"
  then have "length rest \<le> length (drop 7 (c # cs))"
    by (rule find_close_length)
  moreover have "length (dropWhile is_space rest) \<le> length rest"
    by (rule length_dropWhile_le)
  ultimately show "(dropWhile is_space rest, c # cs) \<in> measure length"
    by simp
qed simp_all

definition removeThinkingTags :: "string \<Rightarrow> string" where
  "removeThinkingTags content = trim (strip_think content)"

subsection \<open>One logical call\<close>

datatype outcome =
    Returned string   \<comment> \<open>the \<open>try\<close> block returns the cleaned text\<close>
  | Retry             \<comment> \<open>the \<open>try\<close> block reaches \<open>return await this.chatWithCycling(..., attemptCount + 1)\<close>\<close>
  | Thrown            \<comment> \<open>the \<open>try\<close> block throws before that\<close>

definition is_ok :: "int \<Rightarrow> bool" where
  \<comment> \<open>\<open>response.ok\<close>\<close>
  "is_ok status = (200 \<le> status \<and> status \<le> 299)"

definition attempt :: "env \<Rightarrow> string \<Rightarrow> string option \<Rightarrow> string \<Rightarrow> cerebras \<Rightarrow> outcome \<times> cerebras" where
  \<comment> \<open>the \<open>try\<close> block of \<open>chatWithCycling\<close> up to its return, recursive call or exception\<close>
  "attempt e prompt systemPrompt selectedModel s =
     (let s1 = registerModelUsage e selectedModel s;
          request = (selectedModel, adjustedMessages (adjustPrompts selectedModel prompt systemPrompt));
          s2 = s1\<lparr>requests := requests s1 @ [request]\<rparr>
      in case respond e (length (requests s1)) of
           FetchFailed \<Rightarrow> (Thrown, s2)
         | Response status b \<Rightarrow>
             if status = 429
             then
               let s3 = updateHealthyModels e (recordModelFailure e selectedModel s2)
               in if length (healthyModels s3) = 0 then (Thrown, s3) else (Retry, s3)
             else if \<not> is_ok status
             then (case b of
                     Unreadable \<Rightarrow> (Thrown, s2)
                   | _ \<Rightarrow> (Retry, recordModelFailure e selectedModel s2))
             else (case b of
                     Unreadable \<Rightarrow> (Thrown, s2)
                   | NoChoices \<Rightarrow> (Thrown, recordSuccess selectedModel s2)
                   | Content c \<Rightarrow>
                       (Returned (removeThinkingTags
                          (case c of None \<Rightarrow> ''No response generated''
                           | Some t \<Rightarrow> if t = [] then ''No response generated'' else t)),
                        recordSuccess selectedModel s2)))"

definition all_models_error :: error where
  "all_models_error = Error
     ''Cerebras API rate limit exceeded on all available models. Please wait a moment and try again.''"

function chatWithCycling ::
  "env \<Rightarrow> string \<Rightarrow> string option \<Rightarrow> nat \<Rightarrow> cerebras \<Rightarrow> (error + string) \<times> cerebras" where
  "chatWithCycling e prompt systemPrompt attemptCount s =
     (if attemptCount > 10 then (Inl all_models_error, s)
      else
        let (selectedModel, s1) = getNextModelInCycle e (waitForCycleTime e s)
        in case attempt e prompt systemPrompt selectedModel s1 of
             (Returned text, s2) \<Rightarrow> (Inr text, s2)
           | (Retry, s2) \<Rightarrow>
               (case chatWithCycling e prompt systemPrompt (attemptCount + 1) s2 of
                  (Inr text, s3) \<Rightarrow> (Inr text, s3)
                | (Inl err, s3) \<Rightarrow>
                    \<comment> \<open>the rejection of the call inside \<open>try\<close> lands in \<open>catch\<close>\<close>
                    chatWithCycling e prompt systemPrompt (attemptCount + 1)
                      (recordModelFailure e selectedModel s3))
           | (Thrown, s2) \<Rightarrow>
               chatWithCycling e prompt systemPrompt (attemptCount + 1)
                 (recordModelFailure e selectedModel s2))"
  by pat_completeness auto
termination
  by (relation "measure (\<lambda>(e, prompt, systemPrompt, attemptCount, s). 11 - attemptCount)") auto

definition chat :: "env \<Rightarrow> string \<Rightarrow> string option \<Rightarrow> cerebras \<Rightarrow> (error + string) \<times> cerebras" where
  "chat e prompt systemPrompt s =
     (if apiKey s = [] then (Inl (Error ''Cerebras API key not configured''), s)
      else chatWithCycling e prompt systemPrompt 0 (printModelStatus e s))"

subsection \<open>The round-robin cycle\<close>

definition cycle_ok :: "cerebras \<Rightarrow> bool" where
  \<comment> \<open>the cycle is not empty and holds configured models only\<close>
  "cycle_ok s = (healthyModels s \<noteq> [] \<and> set (healthyModels s) \<subseteq> set availableModels)"

declare chatWithCycling.simps [simp del]

text \<open>Two worlds: every request answered with HTTP 429, and every \<open>fetch\<close> rejecting.\<close>

definition env_all_429 :: env where
  "env_all_429 = \<lparr>clock = (\<lambda>k. 1700000000000 + 250 * int k),
                   respond = (\<lambda>k. Response 429 (Content None))\<rparr>"

definition env_all_failed :: env where
  "env_all_failed = \<lparr>clock = (\<lambda>k. 1700000000000 + 250 * int k), respond = (\<lambda>k. FetchFailed)\<rparr>"

subsection \<open>Reachable service states\<close>

text \<open>
  Between two awaits the service runs one of its synchronous methods; whatever calls are in
  flight, its state is reached from a new service by a sequence of them.
\<close>

inductive reachable :: "env \<Rightarrow> cerebras \<Rightarrow> bool" for e :: env where
  new: "reachable e new_service"
| key: "reachable e s \<Longrightarrow> reachable e (setApiKey k s)"
| wait: "reachable e s \<Longrightarrow> reachable e (waitForCycleTime e s)"
| status: "reachable e s \<Longrightarrow> reachable e (printModelStatus e s)"
| update: "reachable e s \<Longrightarrow> reachable e (updateHealthyModels e s)"
| select: "reachable e s \<Longrightarrow> reachable e (snd (getNextModelInCycle e s))"
| usage: "reachable e s \<Longrightarrow> reachable e (registerModelUsage e model s)"
| request: "reachable e s \<Longrightarrow> reachable e (s\<lparr>requests := requests s @ [r]\<rparr>)"
| failure: "reachable e s \<Longrightarrow> reachable e (recordModelFailure e model s)"
| success: "reachable e s \<Longrightarrow> reachable e (recordSuccess model s)"

definition health_filter :: "env \<Rightarrow> cerebras \<Rightarrow> string list \<times> cerebras" where
  \<comment> \<open>the \<open>filter\<close> call of \<open>updateHealthyModels\<close> when the recomputation runs\<close>
  "health_filter e s =
     filterModels e (Date_now e s) availableModels ((tick s)\<lparr>lastHealthCheck := Date_now e s\<rparr>)"



text \<open>Scenarios: three failures in a row of one model, and of every model.\<close>

definition env_steady :: env where
  "env_steady = \<lparr>clock = (\<lambda>k. 1700000000000 + 250 * int k),
                  respond = (\<lambda>k. Response 200 (Content (Some ''ok'')))\<rparr>"

definition fail3 :: "env \<Rightarrow> cerebras \<Rightarrow> string \<Rightarrow> cerebras" where
  "fail3 e s model = recordModelFailure e model (recordModelFailure e model (recordModelFailure e model s))"

definition all_cooling :: cerebras where
  "all_cooling = foldl (fail3 env_steady) (setApiKey ''key'' new_service) availableModels"

subsection \<open>Evaluating a call step by step\<close>

text \<open>
  The continuations of \<open>chatWithCycling\<close> after the model selection, after the \<open>try\<close> block
  and after the retry made inside it. They give \<open>chatWithCycling\<close> code equations that wait
  for each intermediate result.
\<close>

definition after_retry ::
  "env \<Rightarrow> string \<Rightarrow> string option \<Rightarrow> nat \<Rightarrow> string \<Rightarrow> (error + string) \<times> cerebras
     \<Rightarrow> (error + string) \<times> cerebras" where
  "after_retry e prompt sp n m r =
     (case r of
        (Inr res, s3) \<Rightarrow> (Inr res, s3)
      | (Inl err, s3) \<Rightarrow> chatWithCycling e prompt sp (n + 1) (recordModelFailure e m s3))"

definition after_attempt ::
  "env \<Rightarrow> string \<Rightarrow> string option \<Rightarrow> nat \<Rightarrow> string \<Rightarrow> outcome \<times> cerebras
     \<Rightarrow> (error + string) \<times> cerebras" where
  "after_attempt e prompt sp n m a =
     (case a of
        (Returned res, s2) \<Rightarrow> (Inr res, s2)
      | (Retry, s2) \<Rightarrow> after_retry e prompt sp n m (chatWithCycling e prompt sp (n + 1) s2)
      | (Thrown, s2) \<Rightarrow> chatWithCycling e prompt sp (n + 1) (recordModelFailure e m s2))"

definition after_select ::
  "env \<Rightarrow> string \<Rightarrow> string option \<Rightarrow> nat \<Rightarrow> string \<times> cerebras \<Rightarrow> (error + string) \<times> cerebras" where
  "after_select e prompt sp n sel =
     after_attempt e prompt sp n (fst sel) (attempt e prompt sp (fst sel) (snd sel))"










text \<open>A prompt over the budget whose most recent content differs from its beginning.\<close>

definition long_prompt :: string where
  \<comment> \<open>24501 characters: old content \<open>a\<close>, then the most recent content \<open>z\<close>\<close>
  "long_prompt = replicate 19600 CHR ''a'' @ replicate 4901 CHR ''z''"

section \<open>The search client: \<open>ExaAPIService\<close>\<close>

text \<open>
  An HTTP exchange as the client sees it: \<open>fetch\<close> rejects with an error message, or a
  response arrives with its status, its status text and its body; reading the body
  (\<open>response.text()\<close>, \<open>response.json()\<close>) throws, or yields the payload (\<open>data.results || []\<close>).
  \<open>waitForRateLimit\<close> only delays a call, and its counters are read nowhere else.
\<close>

datatype 'a http =
    Rejected string
  | Reply int string "string + 'a"

record result =
  result_url :: string
  result_title :: string
  result_score :: "rat option"

record content_item =
  content_text :: "string option"

record exa =
  exa_apiKey :: string
  isProduction :: bool   \<comment> \<open>\<open>window.location.hostname\<close> is neither \<open>localhost\<close> nor \<open>127.0.0.1\<close>\<close>

definition digit_char :: "nat \<Rightarrow> char" where
  "digit_char d = char_of (48 + d)"

function dec :: "nat \<Rightarrow> string" where
  "dec n = (if n < 10 then [digit_char n] else dec (n div 10) @ [digit_char (n mod 10)])"
  by pat_completeness auto
termination
  by (relation "measure id") auto

declare dec.simps [simp del]

definition String_of :: "int \<Rightarrow> string" where
  \<comment> \<open>a whole number inside a template literal\<close>
  "String_of i = (if i < 0 then ''-'' @ dec (nat (- i)) else dec (nat i))"

definition rate_limit_message :: string where
  "rate_limit_message = ''Exa API rate limit exceeded. Please wait a moment and try again.''"

definition credits_message :: string where
  "credits_message = ''Exa API credits exhausted. Please top up your account at dashboard.exa.ai to continue using the service.''"

definition auth_message :: string where
  "auth_message = ''Exa API authentication failed. Please check your API key.''"

definition forbidden_message :: string where
  "forbidden_message = ''Exa API access forbidden. Please check your API key permissions.''"

definition api_error_message :: "int \<Rightarrow> string \<Rightarrow> string" where
  "api_error_message status statusText =
     ''Exa API error: '' @ String_of status @ '' '' @ statusText"

definition is_critical :: "string \<Rightarrow> bool" where
  \<comment> \<open>\<open>errorMessage.includes('credits exhausted') || errorMessage.includes('402')\<close>\<close>
  "is_critical errorMessage =
     (str_includes errorMessage ''credits exhausted'' \<or> str_includes errorMessage ''402'')"

definition search_try :: "exa \<Rightarrow> result list http \<Rightarrow> result list http \<Rightarrow> error + result list" where
  \<comment> \<open>the \<open>try\<close> block of \<open>search\<close>; \<open>directResponse\<close> is the exchange of the direct
      fallback call, made only in production after a status 400\<close>
  "search_try x response directResponse =
     (case response of
        Rejected msg \<Rightarrow> Inl (Error msg)
      | Reply status statusText body \<Rightarrow>
          if \<not> is_ok status
          then (case body of
                  Inl msg \<Rightarrow> Inl (Error msg)
                | Inr _ \<Rightarrow>
                    if status = 429 then Inl (Error rate_limit_message)
                    else if status = 402 then Inl (Error credits_message)
                    else if status = 401 then Inl (Error auth_message)
                    else if status = 403 then Inl (Error forbidden_message)
                    else if isProduction x \<and> status = 400
                    then (case directResponse of
                            Rejected msg \<Rightarrow> Inl (Error msg)
                          | Reply dstatus dtext dbody \<Rightarrow>
                              if is_ok dstatus
                              then (case dbody of
                                      Inl msg \<Rightarrow> Inl (Error msg)
                                    | Inr results \<Rightarrow> Inr results)
                              else if dstatus = 429 then Inl (Error rate_limit_message)
                              else Inl (Error (api_error_message status statusText)))
                    else Inl (Error (api_error_message status statusText)))
          else (case body of
                  Inl msg \<Rightarrow> Inl (Error msg)
                | Inr results \<Rightarrow> Inr results))"

definition rethrow_critical :: "error + 'a list \<Rightarrow> error + 'a list" where
  \<comment> \<open>the \<open>catch\<close> block of \<open>search\<close> and of \<open>getContents\<close>\<close>
  "rethrow_critical r =
     (case r of
        Inr results \<Rightarrow> Inr results
      | Inl (Error msg) \<Rightarrow> if is_critical msg then Inl (Error msg) else Inr [])"

definition search :: "exa \<Rightarrow> result list http \<Rightarrow> result list http \<Rightarrow> error + result list" where
  "search x response directResponse =
     (if exa_apiKey x = [] then Inl (Error ''Exa API key not configured'')
      else rethrow_critical (search_try x response directResponse))"

definition getContents_try :: "content_item list http \<Rightarrow> error + content_item list" where
  "getContents_try response =
     (case response of
        Rejected msg \<Rightarrow> Inl (Error msg)
      | Reply status statusText body \<Rightarrow>
          if \<not> is_ok status
          then (case body of
                  Inl msg \<Rightarrow> Inl (Error msg)
                | Inr _ \<Rightarrow>
                    if status = 402 then Inl (Error credits_message)
                    else if status = 429 then Inl (Error rate_limit_message)
                    else Inr [])
          else (case body of
                  Inl msg \<Rightarrow> Inl (Error msg)
                | Inr results \<Rightarrow> Inr results))"

definition getContents :: "exa \<Rightarrow> string list \<Rightarrow> content_item list http \<Rightarrow> error + content_item list" where
  "getContents x urls response =
     (if exa_apiKey x = [] \<or> length urls = 0 then Inr []
      else rethrow_critical (getContents_try response))"

section \<open>The specialist task runner: \<open>SpecialistAgent\<close>\<close>

record source =
  url :: string
  title :: string
  content :: string
  word_count :: nat
  exa_score :: rat
  layer :: nat
  query_used :: string
  relevance_score :: rat
  domain :: string

fun after_scheme :: "string \<Rightarrow> string option" where
  \<comment> \<open>the text after the first \<open>://\<close>\<close>
  "after_scheme [] = None"
| "after_scheme (c # cs) =
     (if prefix ''://'' (c # cs) then Some (drop 3 (c # cs)) else after_scheme cs)"

definition extractDomain :: "string \<Rightarrow> string" where
  \<comment> \<open>\<open>new URL(url).hostname\<close>, or \<open>unknown\<close> when the URL does not parse; the platform's
      parser is modelled for URLs of the form \<open>scheme://host[:port][/path][?query][#fragment]\<close>\<close>
  "extractDomain u =
     (case after_scheme u of
        None \<Rightarrow> ''unknown''
      | Some rest \<Rightarrow>
          let authority = takeWhile (\<lambda>c. c \<noteq> CHR ''/'' \<and> c \<noteq> CHR ''?'' \<and> c \<noteq> CHR ''#'') rest;
              host = takeWhile (\<lambda>c. c \<noteq> CHR '':'') authority
          in if host = [] then ''unknown'' else toLowerCase host)"

function split_ws :: "string \<Rightarrow> string list" where
  \<comment> \<open>\<open>s.split(/\s+/)\<close>\<close>
  "split_ws [] = [[]]"
| "split_ws (c # cs) =
     (if is_space c then [] # split_ws (dropWhile is_space cs)
      else (case split_ws cs of [] \<Rightarrow> [[c]] | w # ws \<Rightarrow> (c # w) # ws))"
  by pat_completeness auto
termination
  by (relation "measure length") (auto simp: length_dropWhile_le less_Suc_eq_le)

definition getSourceCountForQuery :: "int \<Rightarrow> int" where
  \<comment> \<open>\<open>randomDraw\<close> is the value of \<open>Math.floor(Math.random() * 3)\<close>: 0, 1 or 2\<close>
  "getSourceCountForQuery randomDraw =
     (let baseCount = 12;
          randomFactor = randomDraw - 1;
          finalCount = baseCount + randomFactor
      in max 11 (min 13 finalCount))"

definition templates :: "string \<Rightarrow> (string \<times> string list) list" where
  "templates originalQuery =
     [(''Core concepts and fundamental principles'',
         [originalQuery @ '' fundamentals basics principles'',
          originalQuery @ '' core concepts theory'',
          ''what is '' @ originalQuery @ '' definition explanation'']),
      (''Latest developments and recent breakthroughs'',
         [originalQuery @ '' latest news 2024 2023'',
          originalQuery @ '' recent breakthroughs developments'',
          originalQuery @ '' new research advances'']),
      (''Key players, companies, and market dynamics'',
         [originalQuery @ '' companies startups industry'',
          originalQuery @ '' market leaders key players'',
          originalQuery @ '' investment funding commercial'']),
      (''Future implications and emerging trends'',
         [originalQuery @ '' future trends predictions'',
          originalQuery @ '' emerging applications potential'',
          originalQuery @ '' roadmap timeline prospects''])]"

definition is_blank :: "char \<Rightarrow> bool" where
  "is_blank c = (c = CHR '' '')"

fun join :: "string \<Rightarrow> string list \<Rightarrow> string" where
  \<comment> \<open>\<open>pieces.join(sep)\<close>\<close>
  "join sep [] = []"
| "join sep [p] = p"
| "join sep (p # q # ps) = p @ sep @ join sep (q # ps)"

definition generateSearchQueries :: "string \<Rightarrow> string \<Rightarrow> string list" where
  "generateSearchQueries originalQuery task =
     (case find (\<lambda>(key, queries).
                   str_includes (toLowerCase task) (hd (split_on is_blank (toLowerCase key))))
             (templates originalQuery) of
        Some (key, queries) \<Rightarrow> queries
      | None \<Rightarrow>
          [originalQuery @ '' '' @ toLowerCase task,
           originalQuery @ '' '' @
             join '' '' (drop (length (split_on is_blank task) - 3) (split_on is_blank task)),
           originalQuery @ '' research analysis''])"

definition text_of :: "content_item \<Rightarrow> string" where
  \<comment> \<open>\<open>content.text || ''\<close>\<close>
  "text_of c = (case content_text c of None \<Rightarrow> [] | Some t \<Rightarrow> t)"

definition score_of :: "result \<Rightarrow> rat" where
  \<comment> \<open>\<open>result.score || 0.5\<close>\<close>
  "score_of r = (case result_score r of None \<Rightarrow> 1 / 2 | Some v \<Rightarrow> if v = 0 then 1 / 2 else v)"

definition make_source :: "result \<Rightarrow> content_item \<Rightarrow> string \<Rightarrow> source" where
  "make_source r c query =
     \<lparr>url = result_url r, title = result_title r, content = text_of c,
      word_count = length (split_ws (text_of c)), exa_score = score_of r, layer = 1,
      query_used = query, relevance_score = score_of r, domain = extractDomain (result_url r)\<rparr>"

text \<open>
  \<open>executeTask\<close> runs between awaits, and the four tasks of a run interleave at their awaits.
  A task is therefore a state machine: \<open>stage\<close> says which await it is suspended at, with the
  local variables that are live there, and \<open>agent_step\<close> is the synchronous code that runs
  when the awaited event arrives, up to the next await. The results have a string \<open>url\<close> and
  \<open>title\<close>. The progress callback feeds the display only and is left out.
\<close>

datatype stage =
    Searching string int
      \<comment> \<open>\<open>await this.exaService.search(query, targetCount + 5)\<close>\<close>
  | Fetching string int "result list" result
      \<comment> \<open>\<open>await this.exaService.getContents([result.url])\<close> in the first loop, with the
          results still to process\<close>
  | Broadening int
      \<comment> \<open>\<open>await this.exaService.search(originalQuery, targetCount * 2)\<close>\<close>
  | FetchingBroader int "result list" result
      \<comment> \<open>\<open>await this.exaService.getContents([result.url])\<close> in the broader loop\<close>
  | Pausing
      \<comment> \<open>the 300 ms timer between queries\<close>
  | Finished
  | Failed error
      \<comment> \<open>the critical error rethrown by the \<open>catch\<close> block\<close>

record agent =
  task :: string
  remaining :: "string list"   \<comment> \<open>the queries the \<open>for\<close> loop has not started\<close>
  allSources :: "source list"
  stage :: stage

datatype event =
    SearchDone "result list http" "result list http"
  | ContentsDone "content_item list http"
  | TimerDone

definition next_query :: "int \<Rightarrow> agent \<Rightarrow> agent" where
  \<comment> \<open>the head of the \<open>for (const query of queries)\<close> loop\<close>
  "next_query randomDraw a =
     (case remaining a of
        [] \<Rightarrow> a\<lparr>stage := Finished\<rparr>
      | query # queries \<Rightarrow>
          a\<lparr>remaining := queries, stage := Searching query (getSourceCountForQuery randomDraw)\<rparr>)"

definition catch_error :: "int \<Rightarrow> error \<Rightarrow> agent \<Rightarrow> agent" where
  \<comment> \<open>the \<open>catch\<close> block of the loop body\<close>
  "catch_error randomDraw err a =
     (case err of
        Error errorMessage \<Rightarrow>
          if is_critical errorMessage then a\<lparr>stage := Failed err\<rparr> else next_query randomDraw a)"

definition after_results :: "int \<Rightarrow> agent \<Rightarrow> agent" where
  \<comment> \<open>"If still need more sources, try broader search"\<close>
  "after_results targetCount a =
     (if int (length (allSources a)) < targetCount then a\<lparr>stage := Broadening targetCount\<rparr>
      else a\<lparr>stage := Pausing\<rparr>)"

fun process_results ::
  "string \<Rightarrow> int \<Rightarrow> result list \<Rightarrow> string set \<times> agent \<Rightarrow> string set \<times> agent" where
  \<comment> \<open>\<open>for (const result of results)\<close> up to the next \<open>getContents\<close>\<close>
  "process_results query targetCount [] (globalSeenUrls, a) =
     (globalSeenUrls, after_results targetCount a)"
| "process_results query targetCount (r # results) (globalSeenUrls, a) =
     (if result_url r \<in> globalSeenUrls
      then process_results query targetCount results (globalSeenUrls, a)
      else (insert (result_url r) globalSeenUrls,
            a\<lparr>stage := Fetching query targetCount results r\<rparr>))"

fun process_broader :: "int \<Rightarrow> result list \<Rightarrow> string set \<times> agent \<Rightarrow> string set \<times> agent" where
  \<comment> \<open>\<open>for (const result of broaderResults)\<close> up to the next \<open>getContents\<close>\<close>
  "process_broader targetCount [] (globalSeenUrls, a) = (globalSeenUrls, a\<lparr>stage := Pausing\<rparr>)"
| "process_broader targetCount (r # results) (globalSeenUrls, a) =
     (if result_url r \<in> globalSeenUrls
      then process_broader targetCount results (globalSeenUrls, a)
      else (insert (result_url r) globalSeenUrls,
            a\<lparr>stage := FetchingBroader targetCount results r\<rparr>))"

definition push_source :: "source \<Rightarrow> agent \<Rightarrow> agent" where
  "push_source s a = a\<lparr>allSources := allSources a @ [s]\<rparr>"

fun agent_step ::
  "exa \<Rightarrow> string \<Rightarrow> int \<Rightarrow> stage \<Rightarrow> event \<Rightarrow> string set \<times> agent \<Rightarrow> string set \<times> agent" where
  "agent_step x originalQuery randomDraw (Searching query targetCount) (SearchDone response direct)
       (globalSeenUrls, a) =
     (case search x response direct of
        Inl err \<Rightarrow> (globalSeenUrls, catch_error randomDraw err a)
      | Inr results \<Rightarrow> process_results query targetCount results (globalSeenUrls, a))"
| "agent_step x originalQuery randomDraw (Fetching query targetCount results r) (ContentsDone response)
       (globalSeenUrls, a) =
     (case getContents x [result_url r] response of
        Inl err \<Rightarrow> (globalSeenUrls, catch_error randomDraw err a)
      | Inr [] \<Rightarrow> process_results query targetCount results (globalSeenUrls, a)
      | Inr (c # contents) \<Rightarrow>
          let a1 = push_source (make_source r c query) a
          in if int (length (allSources a1)) \<ge> targetCount
             then (globalSeenUrls, after_results targetCount a1)
             else process_results query targetCount results (globalSeenUrls, a1))"
| "agent_step x originalQuery randomDraw (Broadening targetCount) (SearchDone response direct)
       (globalSeenUrls, a) =
     (case search x response direct of
        Inl err \<Rightarrow> (globalSeenUrls, catch_error randomDraw err a)
      | Inr broaderResults \<Rightarrow> process_broader targetCount broaderResults (globalSeenUrls, a))"
| "agent_step x originalQuery randomDraw (FetchingBroader targetCount results r) (ContentsDone response)
       (globalSeenUrls, a) =
     (case getContents x [result_url r] response of
        Inl err \<Rightarrow> (globalSeenUrls, catch_error randomDraw err a)
      | Inr [] \<Rightarrow> process_broader targetCount results (globalSeenUrls, a)
      | Inr (c # contents) \<Rightarrow>
          let a1 = push_source (make_source r c (originalQuery @ '' (broader)'')) a
          in if int (length (allSources a1)) \<ge> targetCount
             then (globalSeenUrls, a1\<lparr>stage := Pausing\<rparr>)
             else process_broader targetCount results (globalSeenUrls, a1))"
| "agent_step x originalQuery randomDraw Pausing TimerDone (globalSeenUrls, a) =
     (globalSeenUrls, next_query randomDraw a)"
| "agent_step x originalQuery randomDraw st ev (globalSeenUrls, a) = (globalSeenUrls, a)"

definition executeTask_start :: "string \<Rightarrow> int \<Rightarrow> string \<Rightarrow> agent" where
  \<comment> \<open>\<open>executeTask\<close> up to its first search\<close>
  "executeTask_start originalQuery randomDraw t =
     next_query randomDraw
       \<lparr>task = t, remaining = generateSearchQueries originalQuery t, allSources = [],
        stage = Pausing\<rparr>"

section \<open>The orchestrator: \<open>LeadResearcher\<close>\<close>

record agent_result =
  sources :: "source list"
  findings :: string
  confidence_gaps :: "string list"

definition analyzeFindings :: "source list \<Rightarrow> string \<Rightarrow> string" where
  "analyzeFindings srcs t =
     (if length srcs = 0 then ''No sources found for task: '' @ t
      else
        let totalWords = sum_list (map word_count srcs);
            sourceSummary =
              join [CHR 0x0A]
                (map (\<lambda>s. title s @ '' ('' @ domain s @ '', '' @ dec (word_count s) @ '' words)'')
                   srcs)
        in ''SOURCES COLLECTED FOR '' @ [CHR 0x22] @ t @ [CHR 0x22] @ '' ('' @ dec totalWords
           @ '' words total):'' @ [CHR 0x0A, CHR 0x0A] @ sourceSummary @ [CHR 0x0A, CHR 0x0A]
           @ ''Content will be processed in comprehensive synthesis phase.'')"

definition tasks :: "string list" where
  "tasks =
     [''Core concepts and fundamental principles'',
      ''Latest developments and recent breakthroughs'',
      ''Key players, companies, and market dynamics'',
      ''Future implications and emerging trends'']"

record research_result =
  original_query :: string
  all_sources :: "source list"
  final_synthesis :: string
  total_sources :: nat

record researcher =
  exaService :: exa
  globalSeenUrls :: "string set"

text \<open>
  What a run meets: the exchange of the pre-flight search (and of its direct fallback), the
  random draw of each task when it is launched, the events in the order in which they
  arrive, each with the task it resumes and the random draw that task makes if it starts
  its next query, and the outcome of \<open>synthesizeFindings\<close>, whose text comes from the language
  model.
\<close>

record world =
  preflight :: "result list http \<times> result list http"
  launchDraw :: "nat \<Rightarrow> int"
  schedule :: "(nat \<times> event \<times> int) list"
  synthesis :: "error + string"

fun resume ::
  "exa \<Rightarrow> string \<Rightarrow> nat \<Rightarrow> event \<Rightarrow> int \<Rightarrow> string set \<times> agent list \<Rightarrow> string set \<times> agent list" where
  \<comment> \<open>task \<open>i\<close> runs from the await this event settles to its next await\<close>
  "resume x query i ev randomDraw (seen, agents) =
     (if i < length agents
      then (case agent_step x query randomDraw (stage (agents ! i)) ev (seen, agents ! i) of
              (seen1, a1) \<Rightarrow> (seen1, agents[i := a1]))
      else (seen, agents))"

declare resume.simps [simp del]

fun run_agents ::
  "exa \<Rightarrow> string \<Rightarrow> (nat \<times> event \<times> int) list \<Rightarrow> string set \<times> agent list
     \<Rightarrow> string set \<times> agent list" where
  "run_agents x query [] (seen, agents) = (seen, agents)"
| "run_agents x query ((i, ev, randomDraw) # events) (seen, agents) =
     run_agents x query events (resume x query i ev randomDraw (seen, agents))"

definition agent_result_of :: "nat \<Rightarrow> agent \<Rightarrow> agent_result option" where
  \<comment> \<open>what the task's promise resolves to, once it is settled\<close>
  "agent_result_of i a =
     (case stage a of
        Finished \<Rightarrow>
          Some \<lparr>sources = allSources a, findings = analyzeFindings (allSources a) (task a),
                confidence_gaps = []\<rparr>
      | Failed (Error errorMessage) \<Rightarrow>
          Some \<lparr>sources = [], findings = ''Agent '' @ dec (i + 1) @ '' failed: '' @ errorMessage,
                confidence_gaps = [''Agent execution failed'']\<rparr>
      | _ \<Rightarrow> None)"

definition cannot_start :: error where
  "cannot_start = Error ''Research cannot start: Exa API credits have been exhausted. Please top up your account at dashboard.exa.ai to continue using the service.''"

definition cannot_continue :: error where
  "cannot_continue = Error ''Research cannot continue: Exa API credits have been exhausted. Please top up your account at dashboard.exa.ai to continue using the service.''"

definition launch_agents :: "string \<Rightarrow> world \<Rightarrow> agent list" where
  \<comment> \<open>\<open>agents.map(async (agent, i) => ...)\<close>: every task runs to its first search\<close>
  "launch_agents query w =
     map (\<lambda>i. executeTask_start query (launchDraw w i) (tasks ! i)) [0..<length tasks]"

fun settle ::
  "string \<Rightarrow> world \<Rightarrow> researcher \<Rightarrow> string set \<times> agent list
     \<Rightarrow> (error + research_result) option \<times> researcher \<times> agent list" where
  \<comment> \<open>\<open>orchestrateResearch\<close> from \<open>await Promise.all(agentPromises)\<close> on; \<open>None\<close>: some task
      has not settled\<close>
  "settle query w r (seen, agents) =
     (let r1 = r\<lparr>globalSeenUrls := seen\<rparr>
      in case those (map (\<lambda>i. agent_result_of i (agents ! i)) [0..<length agents]) of
           None \<Rightarrow> (None, r1, agents)
         | Some agentResults \<Rightarrow>
             let allSources = concat (map sources agentResults);
                 criticalErrors = filter (\<lambda>res. is_critical (findings res)) agentResults
             in if length criticalErrors = length agentResults \<and> length allSources = 0
                then (Some (Inl cannot_continue), r1, agents)
                else (case synthesis w of
                        Inl err \<Rightarrow> (Some (Inl err), r1, agents)
                      | Inr summary \<Rightarrow>
                          (Some (Inr \<lparr>original_query = query, all_sources = allSources,
                                      final_synthesis = summary,
                                      total_sources = length allSources\<rparr>),
                           r1, agents)))"

declare settle.simps [simp del]

definition run_research ::
  "string \<Rightarrow> world \<Rightarrow> researcher \<Rightarrow> (error + research_result) option \<times> researcher \<times> agent list" where
  \<comment> \<open>\<open>orchestrateResearch\<close> after the pre-flight check\<close>
  "run_research query w r =
     settle query w r
       (run_agents (exaService r) query (schedule w) (globalSeenUrls r, launch_agents query w))"

definition orchestrateResearch ::
  "string \<Rightarrow> world \<Rightarrow> researcher \<Rightarrow> (error + research_result) option \<times> researcher \<times> agent list" where
  \<comment> \<open>the result (\<open>Inl\<close>: the promise is rejected), the researcher afterwards, and the tasks
      that were launched\<close>
  "orchestrateResearch query w r =
     (let r1 = r\<lparr>globalSeenUrls := {}\<rparr>
      in case search (exaService r1) (fst (preflight w)) (snd (preflight w)) of
           Inl (Error errorMessage) \<Rightarrow>
             if is_critical errorMessage then (Some (Inl cannot_start), r1, [])
             else run_research query w r1
         | Inr results \<Rightarrow> run_research query w r1)"


subsection \<open>What a run of the tasks preserves\<close>





subsection \<open>Observing a run\<close>

definition collected_urls :: "(error + research_result) option \<times> researcher \<times> agent list \<Rightarrow> string list" where
  \<comment> \<open>the URLs of \<open>all_sources\<close> of a completed run\<close>
  "collected_urls out =
     (case fst out of Some (Inr res) \<Rightarrow> map url (all_sources res) | _ \<Rightarrow> [])"

definition run_view ::
  "(error + research_result) option \<times> researcher \<times> agent list \<Rightarrow> string list \<times> string set" where
  \<comment> \<open>the URLs of the sources of a run and the seen-URL set it leaves\<close>
  "run_view out = (collected_urls out, globalSeenUrls (fst (snd out)))"

subsection \<open>Sample runs\<close>

definition ok_search :: "result list \<Rightarrow> event" where
  \<comment> \<open>a search answered with HTTP 200 and these results\<close>
  "ok_search results = SearchDone (Reply 200 ''OK'' (Inr results)) (Rejected ''not called'')"

definition ok_contents :: "string \<Rightarrow> event" where
  \<comment> \<open>a content request answered with HTTP 200 and one document\<close>
  "ok_contents t = ContentsDone (Reply 200 ''OK'' (Inr [\<lparr>content_text = Some t\<rparr>]))"

definition idle_query :: "nat \<Rightarrow> (nat \<times> event \<times> int) list" where
  \<comment> \<open>the events of one query of task \<open>i\<close> that finds nothing: search, broader search, timer\<close>
  "idle_query i = [(i, ok_search [], 1), (i, ok_search [], 1), (i, TimerDone, 1)]"

definition tracked :: "nat \<Rightarrow> result" where
  \<comment> \<open>one article, reached through a link with a tracking parameter\<close>
  "tracked k = \<lparr>result_url = ''https://example.com/article?utm_source='' @ dec k,
                result_title = ''Article'', result_score = None\<rparr>"

definition page :: "nat \<Rightarrow> result" where
  "page k = \<lparr>result_url = ''https://example.com/page/'' @ dec k,
             result_title = ''Page '' @ dec k, result_score = None\<rparr>"

definition configured :: researcher where
  "configured = \<lparr>exaService = \<lparr>exa_apiKey = ''key'', isProduction = False\<rparr>,
                 globalSeenUrls = {''https://example.com/old''}\<rparr>"


definition duplicate_world :: world where
  \<comment> \<open>the first task finds the article under two links; nothing else is found\<close>
  "duplicate_world =
     \<lparr>preflight = (Reply 200 ''OK'' (Inr []), Rejected ''not called''),
      launchDraw = (\<lambda>i. 1),
      schedule =
        [(0, ok_search [tracked 1, tracked 2], 1), (0, ok_contents ''first copy'', 1),
         (0, ok_contents ''second copy'', 1), (0, ok_search [], 1), (0, TimerDone, 1)]
        @ idle_query 0 @ idle_query 0
        @ concat (map (\<lambda>i. idle_query i @ idle_query i @ idle_query i) [1, 2, 3]),
      synthesis = Inr ''report''\<rparr>"


definition overrun_events :: "(nat \<times> event \<times> int) list" where
  \<comment> \<open>every draw gives the target 11; the first query yields 11 documents, the second and
      the third one new document each\<close>
  "overrun_events =
     [(0, ok_search (map page [1..<12]), 0)] @ replicate 11 (0, ok_contents ''text'', 0)
     @ [(0, TimerDone, 0), (0, ok_search [page 12], 0), (0, ok_contents ''text'', 0),
        (0, TimerDone, 0), (0, ok_search [page 13], 0), (0, ok_contents ''text'', 0),
        (0, TimerDone, 0)]"

definition overrun_task :: agent where
  "overrun_task =
     hd (snd (run_agents (exaService configured) ''q'' overrun_events
                ({}, [executeTask_start ''q'' 0 (tasks ! 0)])))"

section \<open>Properties of the fact merge\<close>

lemma set_Set_add: "set (Set_add x xs) = insert x (set xs)"
  by (auto simp: Set_add_def)

lemma set_foldl_addFact:
  "set (foldl addFact facts pieces) =
     set facts \<union> set (filter (\<lambda>f. length f > 3) (map (\<lambda>rawFact. toLowerCase (trim rawFact)) pieces))"
  by (induction pieces arbitrary: facts) (auto simp: addFact_def Let_def set_Set_add)

lemma foldl_addFact_known:
  "set (filter (\<lambda>f. length f > 3) (map (\<lambda>rawFact. toLowerCase (trim rawFact)) pieces)) \<subseteq> set facts
   \<Longrightarrow> foldl addFact facts pieces = facts"
proof (induction pieces arbitrary: facts)
  case Nil
  then show ?case by simp
next
  case (Cons p ps)
  then have "addFact facts p = facts"
    by (auto simp: addFact_def Let_def Set_add_def)
  with Cons show ?case
    by (auto split: if_splits)
qed

lemma split_on_no_separator: "\<forall>c \<in> set s. \<not> sep c \<Longrightarrow> split_on sep s = [s]"
  by (induction s) auto

lemma trim_empty_all_space: "trim s = [] \<Longrightarrow> \<forall>c \<in> set s. is_space c"
proof -
  assume "trim s = []"
  then have "dropWhile is_space (rev (dropWhile is_space s)) = []"
    by (simp add: trim_def)
  then have "\<forall>c \<in> set (dropWhile is_space s). is_space c"
    by (simp add: dropWhile_eq_Nil_conv)
  moreover have "\<forall>c \<in> set (takeWhile is_space s). is_space c"
    by (auto dest: set_takeWhileD)
  ultimately show ?thesis
    by (metis Un_iff set_append takeWhile_dropWhile_id)
qed

lemma cleanFacts_blank: "trim t = [] \<Longrightarrow> cleanFacts t = []"
proof -
  assume e: "trim t = []"
  then have "\<forall>c \<in> set t. \<not> is_fact_separator c"
    by (auto dest!: trim_empty_all_space simp: is_space_def is_fact_separator_def)
  then have "split_on is_fact_separator t = [t]"
    by (rule split_on_no_separator)
  with e show ?thesis
    by (simp add: cleanFacts_def toLowerCase_def)
qed

lemma set_mergeFacts: "set (mergeFacts t facts) = set facts \<union> set (cleanFacts t)"
proof (cases "trim t = []")
  case True
  then show ?thesis
    by (simp add: mergeFacts_def cleanFacts_blank)
next
  case False
  then show ?thesis
    by (simp add: mergeFacts_def set_foldl_addFact cleanFacts_def)
qed

text \<open>
  C8. Merging extracted facts is idempotent: every piece between separators is trimmed and
  lowercased, pieces of length 3 or less are dropped, and the rest are inserted into the set;
  merging the same text a second time leaves the set (even its insertion order) unchanged,
  and a merge never removes a fact.
\<close>

theorem mergeFacts_idempotent:
  "mergeFacts t (mergeFacts t facts) = mergeFacts t facts
   \<and> set (mergeFacts t facts) = set facts \<union> set (cleanFacts t)
   \<and> set facts \<subseteq> set (mergeFacts t facts)
   \<and> set (cleanFacts t) = {f. length f > 3 \<and>
         (\<exists>piece \<in> set (split_on is_fact_separator t). f = toLowerCase (trim piece))}"
proof -
  have known: "set (cleanFacts t) \<subseteq> set (mergeFacts t facts)"
    by (simp add: set_mergeFacts)
  have "mergeFacts t (mergeFacts t facts) = mergeFacts t facts"
  proof (cases "trim t = []")
    case True
    then show ?thesis by (simp add: mergeFacts_def)
  next
    case False
    with known show ?thesis
      by (simp add: mergeFacts_def[of t "mergeFacts t facts"] foldl_addFact_known cleanFacts_def)
  qed
  moreover have "set (cleanFacts t) = {f. length f > 3 \<and>
         (\<exists>piece \<in> set (split_on is_fact_separator t). f = toLowerCase (trim piece))}"
    by (auto simp: cleanFacts_def)
  ultimately show ?thesis
    by (simp add: set_mergeFacts)
qed

theorem mergeFacts_idempotent_witness:
  "mergeFacts ''IBM builds , x | Qubits 2029 ,ibm builds'' [''d-wave''] =
     [''d-wave'', ''ibm builds'', ''qubits 2029'']
   \<and> mergeFacts ''IBM builds , x | Qubits 2029 ,ibm builds''
        (mergeFacts ''IBM builds , x | Qubits 2029 ,ibm builds'' [''d-wave''])
      = [''d-wave'', ''ibm builds'', ''qubits 2029'']"
proof -
  have "mergeFacts ''IBM builds , x | Qubits 2029 ,ibm builds'' [''d-wave''] =
     [''d-wave'', ''ibm builds'', ''qubits 2029'']"
    by code_simp
  then show ?thesis
    using mergeFacts_idempotent[of "''IBM builds , x | Qubits 2029 ,ibm builds''" "[''d-wave'']"]
    by simp
qed

section \<open>Properties of the inference client\<close>


lemma canUseModel_frame:
  "healthyModels (snd (canUseModel e m s)) = healthyModels s"
  "requests (snd (canUseModel e m s)) = requests s"
  "currentModelIndex (snd (canUseModel e m s)) = currentModelIndex s"
  "lastHealthCheck (snd (canUseModel e m s)) = lastHealthCheck s"
  "modelHealth (snd (canUseModel e m s)) = modelHealth s"
  "modelFailureCount (snd (canUseModel e m s)) = modelFailureCount s"
  "modelLastFailure (snd (canUseModel e m s)) = modelLastFailure s"
  "apiKey (snd (canUseModel e m s)) = apiKey s"
  by (simp_all add: canUseModel_def Let_def tick_def split: option.split)

lemma healthCheck_frame:
  "healthyModels (snd (healthCheck e now m s)) = healthyModels s"
  "requests (snd (healthCheck e now m s)) = requests s"
  "currentModelIndex (snd (healthCheck e now m s)) = currentModelIndex s"
  "lastHealthCheck (snd (healthCheck e now m s)) = lastHealthCheck s"
  "modelLastFailure (snd (healthCheck e now m s)) = modelLastFailure s"
  "apiKey (snd (healthCheck e now m s)) = apiKey s"
  by (simp_all add: healthCheck_def Let_def case_prod_beta canUseModel_frame)

lemma filterModels_Cons:
  "fst (filterModels e now (m # ms) s) =
     (if fst (healthCheck e now m s)
      then m # fst (filterModels e now ms (snd (healthCheck e now m s)))
      else fst (filterModels e now ms (snd (healthCheck e now m s))))"
  "snd (filterModels e now (m # ms) s) = snd (filterModels e now ms (snd (healthCheck e now m s)))"
  by (simp_all add: case_prod_beta)

lemma filterModels_frame:
  "healthyModels (snd (filterModels e now ms s)) = healthyModels s"
  "requests (snd (filterModels e now ms s)) = requests s"
  "currentModelIndex (snd (filterModels e now ms s)) = currentModelIndex s"
  "lastHealthCheck (snd (filterModels e now ms s)) = lastHealthCheck s"
  "modelLastFailure (snd (filterModels e now ms s)) = modelLastFailure s"
  "apiKey (snd (filterModels e now ms s)) = apiKey s"
  by (induction ms arbitrary: s; simp add: filterModels_Cons healthCheck_frame del: filterModels.simps(2))+

lemma filterModels_subset: "set (fst (filterModels e now ms s)) \<subseteq> set ms"
  by (induction ms arbitrary: s) (auto simp: filterModels_Cons simp del: filterModels.simps(2))

lemma foldl_reset_model_frame:
  "healthyModels (foldl reset_model s ms) = healthyModels s"
  "requests (foldl reset_model s ms) = requests s"
  "currentModelIndex (foldl reset_model s ms) = currentModelIndex s"
  "lastHealthCheck (foldl reset_model s ms) = lastHealthCheck s"
  "modelLastFailure (foldl reset_model s ms) = modelLastFailure s"
  "apiKey (foldl reset_model s ms) = apiKey s"
  by (induction ms arbitrary: s; simp add: reset_model_def)+

lemma foldl_reset_model_fields:
  "modelHealth (foldl reset_model s ms) m = (if m \<in> set ms then Some True else modelHealth s m)"
  "modelFailureCount (foldl reset_model s ms) m = (if m \<in> set ms then Some 0 else modelFailureCount s m)"
  by (induction ms arbitrary: s; simp add: reset_model_def)+

lemma availableModels_nonempty: "availableModels \<noteq> []"
  by (simp add: availableModels_def)

lemma updateHealthyModels_requests: "requests (updateHealthyModels e s) = requests s"
  by (simp add: updateHealthyModels_def Let_def tick_def case_prod_beta filterModels_frame
      foldl_reset_model_frame)

lemma updateHealthyModels_cycle_ok: "cycle_ok s \<Longrightarrow> cycle_ok (updateHealthyModels e s)"
  using filterModels_subset[of e "Date_now e s" availableModels]
  by (auto simp: cycle_ok_def updateHealthyModels_def Let_def case_prod_beta tick_def
      filterModels_frame foldl_reset_model_frame availableModels_nonempty)

lemma foldl_init_model_frame:
  "healthyModels (foldl init_model s ms) = healthyModels s"
  "requests (foldl init_model s ms) = requests s"
  "apiKey (foldl init_model s ms) = apiKey s"
  by (induction ms arbitrary: s; simp add: init_model_def)+

lemma foldl_canUse_frame:
  "healthyModels (foldl (\<lambda>s model. snd (canUseModel e model s)) s ms) = healthyModels s"
  "requests (foldl (\<lambda>s model. snd (canUseModel e model s)) s ms) = requests s"
  "apiKey (foldl (\<lambda>s model. snd (canUseModel e model s)) s ms) = apiKey s"
  by (induction ms arbitrary: s; simp add: canUseModel_frame)+

lemma healthyModels_frame:
  "healthyModels (setApiKey key s) = healthyModels s"
  "healthyModels (waitForCycleTime e s) = healthyModels s"
  "healthyModels (registerModelUsage e m s) = healthyModels s"
  "healthyModels (recordModelFailure e m s) = healthyModels s"
  "healthyModels (recordSuccess m s) = healthyModels s"
  "healthyModels (printModelStatus e s) = healthyModels s"
  by (simp_all add: setApiKey_def foldl_init_model_frame waitForCycleTime_def tick_def Let_def
      registerModelUsage_def recordModelFailure_def recordSuccess_def printModelStatus_def
      foldl_canUse_frame)

lemma requests_frame:
  "requests (setApiKey key s) = requests s"
  "requests (waitForCycleTime e s) = requests s"
  "requests (registerModelUsage e m s) = requests s"
  "requests (recordModelFailure e m s) = requests s"
  "requests (recordSuccess m s) = requests s"
  "requests (printModelStatus e s) = requests s"
  "requests (snd (getNextModelInCycle e s)) = requests s"
  by (simp_all add: setApiKey_def foldl_init_model_frame waitForCycleTime_def tick_def Let_def
      registerModelUsage_def recordModelFailure_def recordSuccess_def printModelStatus_def
      foldl_canUse_frame getNextModelInCycle_def updateHealthyModels_requests)

lemma cycle_ok_frame:
  "cycle_ok (setApiKey key s) = cycle_ok s"
  "cycle_ok (waitForCycleTime e s) = cycle_ok s"
  "cycle_ok (registerModelUsage e m s) = cycle_ok s"
  "cycle_ok (recordModelFailure e m s) = cycle_ok s"
  "cycle_ok (recordSuccess m s) = cycle_ok s"
  "cycle_ok (printModelStatus e s) = cycle_ok s"
  "cycle_ok (s\<lparr>requests := r\<rparr>) = cycle_ok s"
  by (simp_all add: cycle_ok_def healthyModels_frame)

lemma getNextModelInCycle_cycle_ok:
  assumes "cycle_ok s"
  shows "cycle_ok (snd (getNextModelInCycle e s))"
    and "fst (getNextModelInCycle e s) \<in> set availableModels"
proof -
  have ok: "cycle_ok (updateHealthyModels e s)"
    using assms by (rule updateHealthyModels_cycle_ok)
  then show "cycle_ok (snd (getNextModelInCycle e s))"
    by (simp add: getNextModelInCycle_def Let_def cycle_ok_def)
  from ok have "healthyModels (updateHealthyModels e s) !
      (currentModelIndex (updateHealthyModels e s) mod length (healthyModels (updateHealthyModels e s)))
      \<in> set (healthyModels (updateHealthyModels e s))"
    by (simp add: cycle_ok_def)
  with ok show "fst (getNextModelInCycle e s) \<in> set availableModels"
    by (auto simp: getNextModelInCycle_def Let_def cycle_ok_def)
qed

lemma attempt_requests:
  "requests (snd (attempt e prompt sp m s)) =
     requests s @ [(m, adjustedMessages (adjustPrompts m prompt sp))]"
  by (simp add: attempt_def Let_def requests_frame updateHealthyModels_requests
      split: response.split body.split)

lemma attempt_cycle_ok: "cycle_ok s \<Longrightarrow> cycle_ok (snd (attempt e prompt sp m s))"
  by (simp add: attempt_def Let_def cycle_ok_frame updateHealthyModels_cycle_ok
      split: response.split body.split)

lemma attempt_429:
  assumes "respond e (length (requests s)) = Response 429 b" and "cycle_ok s"
  shows "fst (attempt e prompt sp m s) = Retry"
proof -
  have "cycle_ok (updateHealthyModels e (recordModelFailure e m
          ((registerModelUsage e m s)\<lparr>requests := requests (registerModelUsage e m s) @
             [(m, adjustedMessages (adjustPrompts m prompt sp))]\<rparr>)))"
    using assms(2) by (simp add: updateHealthyModels_cycle_ok cycle_ok_frame)
  then show ?thesis
    using assms(1) by (simp add: attempt_def Let_def requests_frame cycle_ok_def)
qed

lemma attempt_fetch_failed:
  "respond e (length (requests s)) = FetchFailed \<Longrightarrow> fst (attempt e prompt sp m s) = Thrown"
  by (simp add: attempt_def Let_def requests_frame)

lemma chatWithCycling_all_429:
  assumes all: "\<And>k. respond e k = Response 429 b"
  shows "attemptCount + d = 11 \<Longrightarrow> cycle_ok s \<Longrightarrow>
     fst (chatWithCycling e prompt sp attemptCount s) = Inl all_models_error
     \<and> length (requests (snd (chatWithCycling e prompt sp attemptCount s)))
         = length (requests s) + (2 ^ d - 1)
     \<and> cycle_ok (snd (chatWithCycling e prompt sp attemptCount s))"
proof (induction d arbitrary: attemptCount s)
  case 0
  then show ?case
    by (simp add: chatWithCycling.simps)
next
  case (Suc d)
  define s1 where "s1 = snd (getNextModelInCycle e (waitForCycleTime e s))"
  define m where "m = fst (getNextModelInCycle e (waitForCycleTime e s))"
  define s2 where "s2 = snd (attempt e prompt sp m s1)"
  define r1 where "r1 = chatWithCycling e prompt sp (Suc attemptCount) s2"
  define s3 where "s3 = recordModelFailure e m (snd r1)"
  have ok1: "cycle_ok s1"
    using Suc.prems(2) by (simp add: s1_def getNextModelInCycle_cycle_ok cycle_ok_frame)
  have retry: "attempt e prompt sp m s1 = (Retry, s2)"
    using attempt_429[OF all ok1, of prompt sp m] by (simp add: s2_def prod_eq_iff)
  have ok2: "cycle_ok s2"
    using ok1 by (simp add: s2_def attempt_cycle_ok)
  have len2: "length (requests s2) = length (requests s) + 1"
    by (simp add: s2_def s1_def attempt_requests requests_frame)
  have n: "Suc attemptCount + d = 11" "\<not> attemptCount > 10"
    using Suc.prems(1) by simp_all
  have first: "fst r1 = Inl all_models_error"
    "length (requests (snd r1)) = length (requests s2) + (2 ^ d - 1)" "cycle_ok (snd r1)"
    using Suc.IH[OF n(1) ok2] by (simp_all add: r1_def)
  have ok3: "cycle_ok s3"
    using first(3) by (simp add: s3_def cycle_ok_frame)
  have second: "fst (chatWithCycling e prompt sp (Suc attemptCount) s3) = Inl all_models_error"
    "length (requests (snd (chatWithCycling e prompt sp (Suc attemptCount) s3)))
       = length (requests s3) + (2 ^ d - 1)"
    "cycle_ok (snd (chatWithCycling e prompt sp (Suc attemptCount) s3))"
    using Suc.IH[OF n(1) ok3] by simp_all
  have unfold: "chatWithCycling e prompt sp attemptCount s
      = chatWithCycling e prompt sp (Suc attemptCount) s3"
    using n(2) retry first(1)
    by (subst chatWithCycling.simps)
       (simp add: case_prod_beta m_def[symmetric] s1_def[symmetric] r1_def[symmetric]
          s3_def[symmetric] split: sum.split)
  have "length (requests s3) = length (requests s) + 1 + (2 ^ d - 1)"
    using first(2) len2 by (simp add: s3_def requests_frame)
  then show ?case
    using second by (simp add: unfold)
qed

lemma chatWithCycling_all_failed:
  assumes all: "\<And>k. respond e k = FetchFailed"
  shows "attemptCount + d = 11 \<Longrightarrow>
     fst (chatWithCycling e prompt sp attemptCount s) = Inl all_models_error
     \<and> length (requests (snd (chatWithCycling e prompt sp attemptCount s)))
         = length (requests s) + d"
proof (induction d arbitrary: attemptCount s)
  case 0
  then show ?case
    by (simp add: chatWithCycling.simps)
next
  case (Suc d)
  define s1 where "s1 = snd (getNextModelInCycle e (waitForCycleTime e s))"
  define m where "m = fst (getNextModelInCycle e (waitForCycleTime e s))"
  define s2 where "s2 = recordModelFailure e m (snd (attempt e prompt sp m s1))"
  have thrown: "fst (attempt e prompt sp m s1) = Thrown"
    using attempt_fetch_failed[OF all] .
  have len2: "length (requests s2) = length (requests s) + 1"
    by (simp add: s2_def s1_def attempt_requests requests_frame)
  have n: "Suc attemptCount + d = 11" "\<not> attemptCount > 10"
    using Suc.prems(1) by simp_all
  have unfold: "chatWithCycling e prompt sp attemptCount s
      = chatWithCycling e prompt sp (Suc attemptCount) s2"
    using n(2) thrown
    by (subst chatWithCycling.simps)
       (simp add: case_prod_beta m_def[symmetric] s1_def[symmetric] s2_def[symmetric])
  show ?case
    using Suc.IH[OF n(1), of s2] len2 by (simp add: unfold)
qed

lemma chatWithCycling_error:
  "fst (chatWithCycling e prompt sp attemptCount s) = Inl err \<Longrightarrow> err = all_models_error"
proof (induction e prompt sp attemptCount s rule: chatWithCycling.induct)
  case (1 e prompt sp attemptCount s)
  show ?case
  proof (cases "attemptCount > 10")
    case True
    with "1.prems" show ?thesis
      by (simp add: chatWithCycling.simps)
  next
    case False
    define s1 where "s1 = snd (getNextModelInCycle e (waitForCycleTime e s))"
    define m where "m = fst (getNextModelInCycle e (waitForCycleTime e s))"
    have sel: "(m, s1) = getNextModelInCycle e (waitForCycleTime e s)"
      by (simp add: m_def s1_def)
    obtain out s2 where att: "attempt e prompt sp m s1 = (out, s2)"
      by (cases "attempt e prompt sp m s1")
    show ?thesis
    proof (cases out)
      case (Returned res)
      with "1.prems" False att sel[symmetric] show ?thesis
        by (subst (asm) chatWithCycling.simps) simp
    next
      case Retry
      obtain r s3 where first: "chatWithCycling e prompt sp (attemptCount + 1) s2 = (r, s3)"
        by (cases "chatWithCycling e prompt sp (attemptCount + 1) s2")
      show ?thesis
      proof (cases r)
        case (Inl err')
        have "fst (chatWithCycling e prompt sp (attemptCount + 1) (recordModelFailure e m s3)) = Inl err"
          using "1.prems" False att sel[symmetric] Retry first Inl
          by (subst (asm) chatWithCycling.simps) simp
        then show ?thesis
          using "1.IH"(2)[OF False refl sel att[symmetric] Retry first[symmetric] Inl] by simp
      next
        case (Inr res)
        with "1.prems" False att sel[symmetric] Retry first show ?thesis
          by (subst (asm) chatWithCycling.simps) simp
      qed
    next
      case Thrown
      have "fst (chatWithCycling e prompt sp (attemptCount + 1) (recordModelFailure e m s2)) = Inl err"
        using "1.prems" False att sel[symmetric] Thrown
        by (subst (asm) chatWithCycling.simps) simp
      then show ?thesis
        using "1.IH"(3)[OF False refl sel att[symmetric] Thrown] by simp
    qed
  qed
qed

lemma new_service_cycle_ok: "cycle_ok new_service"
  by (simp add: cycle_ok_def new_service_def availableModels_nonempty)

lemma apiKey_setApiKey: "apiKey (setApiKey key s) = key"
  by (simp add: setApiKey_def foldl_init_model_frame)

text \<open>
  C3. One logical call is meant to stop after a fixed number of attempts. When every request
  is answered with HTTP 429 the call does end with the all-models error, but only after 2047
  requests: a retry started inside the \<open>try\<close> block that fails is caught by the same call's
  \<open>catch\<close>, which retries once more. When every \<open>fetch\<close> rejects, the call makes 11
  requests (attempt counts 0 to 10).
\<close>

theorem chat_attempts_uncapped:
  "fst (chat env_all_429 ''q'' None (setApiKey ''key'' new_service)) = Inl all_models_error
   \<and> length (requests (snd (chat env_all_429 ''q'' None (setApiKey ''key'' new_service)))) = 2047
   \<and> fst (chat env_all_failed ''q'' None (setApiKey ''key'' new_service)) = Inl all_models_error
   \<and> length (requests (snd (chat env_all_failed ''q'' None (setApiKey ''key'' new_service)))) = 11"
proof -
  have a: "\<And>k. respond env_all_429 k = Response 429 (Content None)"
    by (simp add: env_all_429_def)
  have b: "\<And>k. respond env_all_failed k = FetchFailed"
    by (simp add: env_all_failed_def)
  have ok: "cycle_ok (printModelStatus env_all_429 (setApiKey ''key'' new_service))"
    by (simp add: cycle_ok_frame new_service_cycle_ok)
  have len: "requests (printModelStatus e (setApiKey ''key'' new_service)) = []" for e
    by (simp add: requests_frame new_service_def)
  show ?thesis
    using chatWithCycling_all_429[OF a _ ok, of 0 11 "''q''" None]
      chatWithCycling_all_failed[OF b, of 0 11 "''q''" None
        "printModelStatus env_all_failed (setApiKey ''key'' new_service)"]
    by (simp add: chat_def apiKey_setApiKey len)
qed

lemma reachable_cycle_ok: "reachable e s \<Longrightarrow> cycle_ok s"
  by (induction rule: reachable.induct)
     (simp_all add: new_service_cycle_ok cycle_ok_frame updateHealthyModels_cycle_ok
        getNextModelInCycle_cycle_ok)

lemma updateHealthyModels_recompute:
  "10000 \<le> Date_now e s - lastHealthCheck s \<Longrightarrow>
   updateHealthyModels e s =
     (if fst (health_filter e s) = []
      then (foldl reset_model (snd (health_filter e s)) availableModels)\<lparr>healthyModels := availableModels\<rparr>
      else (snd (health_filter e s))\<lparr>healthyModels := fst (health_filter e s)\<rparr>)"
  by (simp add: updateHealthyModels_def health_filter_def Let_def case_prod_beta tick_def)

lemma updateHealthyModels_index: "currentModelIndex (updateHealthyModels e s) = currentModelIndex s"
  by (simp add: updateHealthyModels_def Let_def tick_def case_prod_beta filterModels_frame
      foldl_reset_model_frame)

lemma attempt_reachable:
  "reachable e s \<Longrightarrow> reachable e (snd (attempt e prompt sp m s))"
  by (auto simp: attempt_def Let_def intro!: reachable.intros split: response.split body.split)

lemma chatWithCycling_reachable:
  "reachable e s \<Longrightarrow> reachable e (snd (chatWithCycling e prompt sp attemptCount s))"
proof (induction e prompt sp attemptCount s rule: chatWithCycling.induct)
  case (1 e prompt sp attemptCount s)
  show ?case
  proof (cases "attemptCount > 10")
    case True
    with "1.prems" show ?thesis
      by (simp add: chatWithCycling.simps)
  next
    case False
    define s1 where "s1 = snd (getNextModelInCycle e (waitForCycleTime e s))"
    define m where "m = fst (getNextModelInCycle e (waitForCycleTime e s))"
    have sel: "(m, s1) = getNextModelInCycle e (waitForCycleTime e s)"
      by (simp add: m_def s1_def)
    obtain out s2 where att: "attempt e prompt sp m s1 = (out, s2)"
      by (cases "attempt e prompt sp m s1")
    have r1: "reachable e s1"
      unfolding s1_def using "1.prems" by (intro reachable.intros)
    have r2: "reachable e s2"
      using attempt_reachable[OF r1, of prompt sp m] by (simp add: att)
    show ?thesis
    proof (cases out)
      case (Returned res)
      with False att sel[symmetric] r2 show ?thesis
        by (subst chatWithCycling.simps) simp
    next
      case Retry
      obtain r s3 where first: "chatWithCycling e prompt sp (attemptCount + 1) s2 = (r, s3)"
        by (cases "chatWithCycling e prompt sp (attemptCount + 1) s2")
      have r3: "reachable e s3"
        using "1.IH"(1)[OF False refl sel att[symmetric] Retry r2] first by simp
      show ?thesis
      proof (cases r)
        case (Inl err)
        have "reachable e (recordModelFailure e m s3)"
          using r3 by (rule reachable.failure)
        from "1.IH"(2)[OF False refl sel att[symmetric] Retry first[symmetric] Inl this]
        show ?thesis
          using False att sel[symmetric] Retry first Inl
          by (subst chatWithCycling.simps) simp
      next
        case (Inr res)
        with False att sel[symmetric] Retry first r3 show ?thesis
          by (subst chatWithCycling.simps) simp
      qed
    next
      case Thrown
      have "reachable e (recordModelFailure e m s2)"
        using r2 by (rule reachable.failure)
      from "1.IH"(3)[OF False refl sel att[symmetric] Thrown this]
      show ?thesis
        using False att sel[symmetric] Thrown
        by (subst chatWithCycling.simps) simp
    qed
  qed
qed

lemma chat_reachable: "reachable e s \<Longrightarrow> reachable e (snd (chat e prompt sp s))"
  by (simp add: chat_def chatWithCycling_reachable reachable.status)

text \<open>
  C10. The round-robin cycle is never empty. In every reachable state (a call of \<open>chat\<close>
  leads from reachable states to reachable states) the list of healthy models is non-empty,
  also after a health recomputation, and the selection returns one of the configured
  models. When a recomputation leaves no model (emergency recovery), every
  model's failure count is reset to zero, every model is marked healthy and the list is the
  full model list again, so the next model in turn is returned even if its cooldown has not
  elapsed.
\<close>

theorem emergency_recovery:
  assumes "reachable e s"
  shows "healthyModels s \<noteq> []
     \<and> healthyModels (updateHealthyModels e s) \<noteq> []
     \<and> fst (getNextModelInCycle e s) \<in> set availableModels
     \<and> reachable e (snd (chat e prompt systemPrompt s))
     \<and> (10000 \<le> Date_now e s - lastHealthCheck s \<and> fst (health_filter e s) = []
          \<longrightarrow> healthyModels (updateHealthyModels e s) = availableModels
            \<and> (\<forall>model \<in> set availableModels.
                  modelFailureCount (updateHealthyModels e s) model = Some 0
                  \<and> modelHealth (updateHealthyModels e s) model = Some True)
            \<and> fst (getNextModelInCycle e s)
                = availableModels ! (currentModelIndex s mod length availableModels))"
proof -
  have ok: "cycle_ok s"
    using assms by (rule reachable_cycle_ok)
  have "healthyModels s \<noteq> []"
    using ok by (simp add: cycle_ok_def)
  moreover have "healthyModels (updateHealthyModels e s) \<noteq> []"
    using updateHealthyModels_cycle_ok[OF ok, of e] by (simp add: cycle_ok_def)
  moreover have "fst (getNextModelInCycle e s) \<in> set availableModels"
    using ok by (rule getNextModelInCycle_cycle_ok)
  moreover have "reachable e (snd (chat e prompt systemPrompt s))"
    using assms by (rule chat_reachable)
  moreover have "healthyModels (updateHealthyModels e s) = availableModels
            \<and> (\<forall>model \<in> set availableModels.
                  modelFailureCount (updateHealthyModels e s) model = Some 0
                  \<and> modelHealth (updateHealthyModels e s) model = Some True)
            \<and> fst (getNextModelInCycle e s)
                = availableModels ! (currentModelIndex s mod length availableModels)"
    if "10000 \<le> Date_now e s - lastHealthCheck s" and "fst (health_filter e s) = []"
  proof -
    have upd: "updateHealthyModels e s =
        (foldl reset_model (snd (health_filter e s)) availableModels)\<lparr>healthyModels := availableModels\<rparr>"
      using that by (simp add: updateHealthyModels_recompute)
    have hm: "healthyModels (updateHealthyModels e s) = availableModels"
      by (simp add: upd)
    have "fst (getNextModelInCycle e s)
                = availableModels ! (currentModelIndex s mod length availableModels)"
      using hm updateHealthyModels_index[of e s]
      by (simp add: getNextModelInCycle_def Let_def availableModels_nonempty)
    then show ?thesis
      by (simp add: upd foldl_reset_model_fields)
  qed
  ultimately show ?thesis
    by blast
qed

lemma all_cooling_reachable: "reachable env_steady all_cooling"
  by (simp add: all_cooling_def availableModels_def fail3_def reachable.intros)

theorem emergency_recovery_witness:
  "reachable env_steady all_cooling
   \<and> or0 (modelFailureCount all_cooling) ''qwen-3-32b'' = 3
   \<and> Date_now env_steady all_cooling - or0 (modelLastFailure all_cooling) ''qwen-3-32b'' < cooldownTime
   \<and> fst (health_filter env_steady all_cooling) = []
   \<and> healthyModels (updateHealthyModels env_steady all_cooling) = availableModels
   \<and> modelFailureCount (updateHealthyModels env_steady all_cooling) ''qwen-3-32b'' = Some 0
   \<and> fst (getNextModelInCycle env_steady all_cooling) \<in> set availableModels"
proof -
  have r: "reachable env_steady all_cooling"
    by (rule all_cooling_reachable)
  have a: "or0 (modelFailureCount all_cooling) ''qwen-3-32b'' = 3"
    by code_simp
  have b: "Date_now env_steady all_cooling - or0 (modelLastFailure all_cooling) ''qwen-3-32b'' < cooldownTime"
    by code_simp
  have c: "fst (health_filter env_steady all_cooling) = []"
    by code_simp
  have d: "10000 \<le> Date_now env_steady all_cooling - lastHealthCheck all_cooling"
    by code_simp
  have m: "''qwen-3-32b'' \<in> set availableModels"
    by (simp add: availableModels_def)
  have sel: "fst (getNextModelInCycle env_steady all_cooling) \<in> set availableModels"
    using emergency_recovery[OF r] by blast
  have "healthyModels (updateHealthyModels env_steady all_cooling) = availableModels
      \<and> (\<forall>model \<in> set availableModels.
            modelFailureCount (updateHealthyModels env_steady all_cooling) model = Some 0
            \<and> modelHealth (updateHealthyModels env_steady all_cooling) model = Some True)"
    using emergency_recovery[OF r] c d by blast
  with m have "healthyModels (updateHealthyModels env_steady all_cooling) = availableModels
      \<and> modelFailureCount (updateHealthyModels env_steady all_cooling) ''qwen-3-32b'' = Some 0"
    by blast
  with r a b c sel show ?thesis
    by simp
qed













lemma after_retry_code [code]:
  "after_retry e prompt sp n m (Inr res, s3) = (Inr res, s3)"
  "after_retry e prompt sp n m (Inl err, s3) =
     chatWithCycling e prompt sp (n + 1) (recordModelFailure e m s3)"
  by (simp_all add: after_retry_def)

lemma after_attempt_code [code]:
  "after_attempt e prompt sp n m (Returned res, s2) = (Inr res, s2)"
  "after_attempt e prompt sp n m (Retry, s2) =
     after_retry e prompt sp n m (chatWithCycling e prompt sp (n + 1) s2)"
  "after_attempt e prompt sp n m (Thrown, s2) =
     chatWithCycling e prompt sp (n + 1) (recordModelFailure e m s2)"
  by (simp_all add: after_attempt_def)

lemma after_select_code [code]:
  "after_select e prompt sp n (m, s1) = after_attempt e prompt sp n m (attempt e prompt sp m s1)"
  by (simp add: after_select_def)

lemma chatWithCycling_code [code]:
  "chatWithCycling e prompt sp n s =
     (if n > 10 then (Inl all_models_error, s)
      else after_select e prompt sp n (getNextModelInCycle e (waitForCycleTime e s)))"
  by (subst chatWithCycling.simps)
     (simp add: after_select_def after_attempt_def after_retry_def case_prod_beta
        split: outcome.split sum.split)



lemma over_budget_iff:
  "over_budget prompt sp = (length prompt + (case sp of None \<Rightarrow> 0 | Some s \<Rightarrow> length s) > 24500)"
  by (auto simp: over_budget_def str_length_def split: option.split)

text \<open>
  C7, as first stated, fails: the truncation does not keep the most recent content. A user
  prompt of 19600 characters \<open>a\<close> followed by 4901 characters \<open>z\<close> is cut down to its first
  19600 characters and the marker; none of the final characters is sent.
\<close>

theorem truncation_counterexample:
  "over_budget long_prompt None
   \<and> adjustPrompts ''llama-3.3-70b'' long_prompt None = (None, replicate 19600 CHR ''a'' @ ''...'')
   \<and> CHR ''z'' \<notin> set (snd (adjustPrompts ''llama-3.3-70b'' long_prompt None))
   \<and> last long_prompt = CHR ''z''"
  by (simp add: long_prompt_def adjustPrompts_def over_budget_def str_length_def
      preparePromptWithNoThink_def maxPromptChars_def substring0_def Let_def)

text \<open>
  C7 (as amended). The prompts are over the budget exactly when they have more than 24500
  characters together (characters divided by 3.5 above 7000). Then each prompt longer than
  its share (19600 characters, 80 percent, for the user prompt; 4900 characters, 20 percent,
  for the system prompt) is cut down to its leading characters of that number followed by
  the marker \<open>...\<close>, at least one of the two is cut, and the request carries the adjusted
  prompts. Prompts within the budget are sent as they are.
\<close>

theorem prompt_truncation:
  "over_budget prompt sp = (length prompt + (case sp of None \<Rightarrow> 0 | Some s \<Rightarrow> length s) > 24500)
   \<and> (\<not> over_budget prompt sp \<longrightarrow>
         adjustPrompts model prompt sp = (sp, preparePromptWithNoThink prompt model))
   \<and> (over_budget prompt sp \<longrightarrow>
         snd (adjustPrompts model prompt sp) =
           (if model = ''qwen-3-32b'' then no_think else []) @
           (if length prompt > 19600 then take 19600 prompt @ ''...'' else prompt)
         \<and> fst (adjustPrompts model prompt sp) =
           map_option (\<lambda>s. if length s > 4900 then take 4900 s @ ''...'' else s) sp
         \<and> (length prompt > 19600 \<or> (\<exists>s. sp = Some s \<and> length s > 4900)))
   \<and> 5 * maxPromptChars = 4 * 24500 \<and> 5 * maxSystemChars = 24500
   \<and> requests (snd (attempt e prompt sp model st)) =
        requests st @ [(model, adjustedMessages (adjustPrompts model prompt sp))]"
proof -
  have "snd (adjustPrompts model prompt sp) =
           (if model = ''qwen-3-32b'' then no_think else []) @
           (if length prompt > 19600 then take 19600 prompt @ ''...'' else prompt)
         \<and> fst (adjustPrompts model prompt sp) =
           map_option (\<lambda>s. if length s > 4900 then take 4900 s @ ''...'' else s) sp
         \<and> (length prompt > 19600 \<or> (\<exists>s. sp = Some s \<and> length s > 4900))"
    if "over_budget prompt sp"
  proof -
    have "length prompt > 19600 \<or> (\<exists>s. sp = Some s \<and> length s > 4900)"
      using that by (cases sp) (auto simp: over_budget_iff)
    moreover have "snd (adjustPrompts model prompt sp) =
           (if model = ''qwen-3-32b'' then no_think else []) @
           (if length prompt > 19600 then take 19600 prompt @ ''...'' else prompt)"
      using that
      by (simp add: adjustPrompts_def Let_def preparePromptWithNoThink_def maxPromptChars_def
          substring0_def str_length_def)
    moreover have "fst (adjustPrompts model prompt sp) =
           map_option (\<lambda>s. if length s > 4900 then take 4900 s @ ''...'' else s) sp"
      using that
      by (cases sp)
         (auto simp: adjustPrompts_def Let_def maxSystemChars_def substring0_def str_length_def)
    ultimately show ?thesis
      by blast
  qed
  moreover have "adjustPrompts model prompt sp = (sp, preparePromptWithNoThink prompt model)"
    if "\<not> over_budget prompt sp"
    using that by (simp add: adjustPrompts_def Let_def)
  ultimately show ?thesis
    by (simp add: over_budget_iff maxPromptChars_def maxSystemChars_def attempt_requests)
qed

theorem prompt_truncation_witness:
  "over_budget long_prompt (Some (replicate 4901 CHR ''s''))
   \<and> adjustPrompts ''qwen-3-32b'' long_prompt (Some (replicate 4901 CHR ''s'')) =
       (Some (replicate 4900 CHR ''s'' @ ''...''), no_think @ replicate 19600 CHR ''a'' @ ''...'')"
  using prompt_truncation[of long_prompt "Some (replicate 4901 CHR ''s'')" "''qwen-3-32b''"]
  by (simp add: long_prompt_def prod_eq_iff)

section \<open>Properties of the search client\<close>




section \<open>Properties of the task runner and the orchestrator\<close>






























lemma orchestrateResearch_cong:
  "exaService r1 = exaService r2 \<Longrightarrow> orchestrateResearch q w r1 = orchestrateResearch q w r2"
proof -
  assume "exaService r1 = exaService r2"
  then have "r1\<lparr>globalSeenUrls := {}\<rparr> = r2\<lparr>globalSeenUrls := {}\<rparr>"
    by (cases r1, cases r2) simp
  then show ?thesis
    by (simp add: orchestrateResearch_def Let_def)
qed

lemma exaService_after:
  "exaService (fst (snd (orchestrateResearch q w r))) = exaService r"
proof -
  have "exaService (fst (snd (settle q w r1 st))) = exaService r1" for r1 st
    by (cases st) (simp add: settle.simps Let_def split: option.split sum.split)
  then show ?thesis
    by (simp add: orchestrateResearch_def run_research_def Let_def split: sum.split error.split)
qed

text \<open>
  C9. A run starts from an empty seen-URL set: what \<open>orchestrateResearch\<close> returns does not
  depend on the seen set it finds, in particular not on the one an earlier run has left, so
  a URL collected in one run is collected again in the next.
\<close>

theorem seen_urls_cleared:
  "orchestrateResearch q w (r\<lparr>globalSeenUrls := old\<rparr>) = orchestrateResearch q w r
   \<and> orchestrateResearch q w (fst (snd (orchestrateResearch q' w' r))) = orchestrateResearch q w r"
proof
  show "orchestrateResearch q w (r\<lparr>globalSeenUrls := old\<rparr>) = orchestrateResearch q w r"
    by (rule orchestrateResearch_cong) simp
  show "orchestrateResearch q w (fst (snd (orchestrateResearch q' w' r))) = orchestrateResearch q w r"
    by (rule orchestrateResearch_cong) (rule exaService_after)
qed

lemma duplicate_run:
  "run_view (orchestrateResearch ''q'' duplicate_world configured) =
     ([''https://example.com/article?utm_source=1'', ''https://example.com/article?utm_source=2''],
      {''https://example.com/article?utm_source=1'', ''https://example.com/article?utm_source=2''})"
  by code_simp



theorem seen_urls_cleared_witness:
  "''https://example.com/article?utm_source=1''
       \<in> globalSeenUrls (fst (snd (orchestrateResearch ''q'' duplicate_world configured)))
   \<and> collected_urls (orchestrateResearch ''q'' duplicate_world
        (fst (snd (orchestrateResearch ''q'' duplicate_world configured))))
     = [''https://example.com/article?utm_source=1'', ''https://example.com/article?utm_source=2'']"
  using seen_urls_cleared[where q = "''q''" and w = duplicate_world and r = configured
        and q' = "''q''" and w' = duplicate_world] duplicate_run
  by (simp add: run_view_def)

text \<open>
  C5. The target of a query is between 11 and 13. A task does not stop at its target: the
  check sits after the push inside the loop over the results of one query, and the next
  query starts a new loop. With every target equal to 11, a task whose first query yields 11
  documents and whose second and third query yield one new document each ends with 13
  sources.
\<close>

theorem task_exceeds_target:
  "11 \<le> getSourceCountForQuery randomDraw \<and> getSourceCountForQuery randomDraw \<le> 13
   \<and> getSourceCountForQuery 0 = 11
   \<and> stage overrun_task = Finished
   \<and> length (allSources overrun_task) = 13"
proof -
  have "stage overrun_task = Finished \<and> length (allSources overrun_task) = 13"
    by code_simp
  then show ?thesis
    by (simp add: getSourceCountForQuery_def Let_def)
qed

end
